theory Spec2Isabelle
  imports Complex_Main
begin

section \<open>JavaScript numbers\<close>

text \<open>
  The display module of Sozi (\<^verbatim>\<open>src/player/js/display.js\<close>) computes with
  JavaScript numbers, which are IEEE doubles. A number of the model is a real, or one of
  the three special values of the language: \<open>Infinity\<close>, \<open>-Infinity\<close> and \<open>NaN\<close>. A
  division by zero does what it does in JavaScript (it yields an infinity or \<open>NaN\<close>, it
  does not fail and it is not \<open>0\<close>), and the special values propagate through the
  arithmetic as they do in the language.

  The operations \<open>+\<close>, \<open>-\<close>, \<open>*\<close>, \<open>/\<close> and the functions of \<^verbatim>\<open>Math\<close> below give the exact
  result on finite values; the rounding of an exact result to a double is the function
  \<open>rounded\<close>, defined after them. Where a property depends on the rounding, the operation of
  the display is given a second time, under a name that ends in \<open>_double\<close>, with every
  result rounded as the code rounds it. The sign of zero is left out of the model. In the
  tables below the first equation that matches applies.
\<close>

datatype number = Fin real | PosInf | NegInf | NaN

instantiation number :: uminus
begin

fun uminus_number :: "number \<Rightarrow> number" where
  "uminus_number (Fin a) = Fin (- a)"
| "uminus_number PosInf = NegInf"
| "uminus_number NegInf = PosInf"
| "uminus_number NaN = NaN"

instance ..

end

instantiation number :: plus
begin

fun plus_number :: "number \<Rightarrow> number \<Rightarrow> number" where
  "plus_number (Fin a) (Fin b) = Fin (a + b)"
| "plus_number NaN _ = NaN"
| "plus_number _ NaN = NaN"
| "plus_number PosInf NegInf = NaN"
| "plus_number NegInf PosInf = NaN"
| "plus_number PosInf _ = PosInf"
| "plus_number _ PosInf = PosInf"
| "plus_number NegInf _ = NegInf"
| "plus_number _ NegInf = NegInf"

instance ..

end

instantiation number :: minus
begin

definition minus_number :: "number \<Rightarrow> number \<Rightarrow> number" where
  "minus_number a b = a + (- b)"

instance ..

end

text \<open>The sign of a finite factor decides the sign of an infinite product or quotient.\<close>

fun signed_inf :: "real \<Rightarrow> number \<Rightarrow> number" where
  "signed_inf a i = (if a = 0 then NaN else if 0 < a then i else - i)"

instantiation number :: times
begin

fun times_number :: "number \<Rightarrow> number \<Rightarrow> number" where
  "times_number (Fin a) (Fin b) = Fin (a * b)"
| "times_number NaN _ = NaN"
| "times_number _ NaN = NaN"
| "times_number (Fin a) i = signed_inf a i"
| "times_number i (Fin b) = signed_inf b i"
| "times_number PosInf i = i"
| "times_number NegInf i = - i"

instance ..

end

instantiation number :: inverse
begin

fun divide_number :: "number \<Rightarrow> number \<Rightarrow> number" where
  "divide_number (Fin a) (Fin b) = (if b = 0 then signed_inf a PosInf else Fin (a / b))"
| "divide_number NaN _ = NaN"
| "divide_number _ NaN = NaN"
| "divide_number (Fin a) _ = Fin 0"
| "divide_number i (Fin b) = (if 0 \<le> b then i else - i)"
| "divide_number _ _ = NaN"

definition inverse_number :: "number \<Rightarrow> number" where
  "inverse_number a = divide (Fin 1) (a :: number)"

instance ..

end

text \<open>
  The operator \<^verbatim>\<open>%\<close> is the remainder of the truncated division: its result has the
  sign of the dividend.
\<close>

definition trunc :: "real \<Rightarrow> int" where
  "trunc z = (if 0 \<le> z then \<lfloor>z\<rfloor> else \<lceil>z\<rceil>)"

fun remainder :: "number \<Rightarrow> number \<Rightarrow> number" where
  "remainder (Fin a) (Fin b) =
     (if b = 0 then NaN else Fin (a - b * of_int (trunc (a / b))))"
| "remainder (Fin a) PosInf = Fin a"
| "remainder (Fin a) NegInf = Fin a"
| "remainder _ _ = NaN"

fun Math_min :: "number \<Rightarrow> number \<Rightarrow> number" where
  "Math_min (Fin a) (Fin b) = Fin (min a b)"
| "Math_min NaN _ = NaN"
| "Math_min _ NaN = NaN"
| "Math_min NegInf _ = NegInf"
| "Math_min _ NegInf = NegInf"
| "Math_min PosInf b = b"
| "Math_min a PosInf = a"

fun Math_cos :: "number \<Rightarrow> number" where
  "Math_cos (Fin a) = Fin (cos a)"
| "Math_cos _ = NaN"

fun Math_sin :: "number \<Rightarrow> number" where
  "Math_sin (Fin a) = Fin (sin a)"
| "Math_sin _ = NaN"

definition Math_PI :: number where
  "Math_PI = Fin pi"

section \<open>Rounding to a double\<close>

text \<open>
  A double has \<open>53\<close> significant bits and an exponent of at least \<open>-1022\<close>: around \<open>x\<close>
  the doubles are \<open>ulp x\<close> apart, with the subnormal numbers below \<open>2 ^ -1022\<close>.
  \<open>round_double\<close> rounds a real to the nearest double, a tie to the one whose last bit is
  even; \<open>to_double\<close> adds the overflow to an infinity, from \<open>2 ^ 1024\<close> on. \<open>rounded\<close> is
  the rounding of the result of an operation.
\<close>

definition round_half_even :: "real \<Rightarrow> int" where
  "round_half_even m =
     (let f = \<lfloor>m\<rfloor> in
      if m - of_int f < 1 / 2 then f
      else if 1 / 2 < m - of_int f then f + 1
      else if even f then f else f + 1)"

definition binade :: "real \<Rightarrow> int" where
  "binade x = max \<lfloor>log 2 \<bar>x\<bar>\<rfloor> (- 1022)"

definition ulp :: "real \<Rightarrow> real" where
  "ulp x = 2 powr (of_int (binade x) - 52)"

definition round_double :: "real \<Rightarrow> real" where
  "round_double x = (if x = 0 then 0 else of_int (round_half_even (x / ulp x)) * ulp x)"

definition to_double :: "real \<Rightarrow> number" where
  "to_double x =
     (let r = round_double x
      in if 2 ^ 1024 \<le> r then PosInf else if r \<le> - (2 ^ 1024) then NegInf else Fin r)"

fun rounded :: "number \<Rightarrow> number" where
  "rounded (Fin x) = to_double x"
| "rounded PosInf = PosInf"
| "rounded NegInf = NegInf"
| "rounded NaN = NaN"


section \<open>The state of the display\<close>

text \<open>
  The geometry of a layer, as \<^verbatim>\<open>onDocumentReady\<close> creates it. The attribute
  \<^verbatim>\<open>rotate\<close> is the field \<open>rotate_deg\<close>.
\<close>

record geometry =
  cx :: number
  cy :: number
  width :: number
  height :: number
  rotate_deg :: number
  clip :: bool

text \<open>The object that \<^verbatim>\<open>getFrameGeometry\<close> returns.\<close>

record viewport_frame =
  scale :: number
  frame_width :: number
  frame_height :: number
  frame_x :: number
  frame_y :: number

text \<open>The window, of which the module reads the inner size whenever it needs it.\<close>

record window =
  innerWidth :: number
  innerHeight :: number

text \<open>
  \<^verbatim>\<open>getFrameGeometry(idLayer)\<close> reads the geometry \<open>g\<close> of the layer and the size
  of the window. Its callers pass the key of the entry of \<^verbatim>\<open>exports.layers\<close> they
  are visiting, so the model takes the geometry of that entry.
\<close>

definition getFrameGeometry :: "window \<Rightarrow> geometry \<Rightarrow> viewport_frame" where
  "getFrameGeometry win g =
     (let result_scale = Math_min (innerWidth win / width g) (innerHeight win / height g);
          result_width = width g * result_scale;
          result_height = height g * result_scale
      in \<lparr> scale = result_scale,
           frame_width = result_width,
           frame_height = result_height,
           frame_x = (innerWidth win - result_width) / Fin 2,
           frame_y = (innerHeight win - result_height) / Fin 2 \<rparr>)"

text \<open>The same function with every result rounded to a double.\<close>

definition getFrameGeometry_double :: "window \<Rightarrow> geometry \<Rightarrow> viewport_frame" where
  "getFrameGeometry_double win g =
     (let result_scale = Math_min (rounded (innerWidth win / width g))
                                  (rounded (innerHeight win / height g));
          result_width = rounded (width g * result_scale);
          result_height = rounded (height g * result_scale)
      in \<lparr> scale = result_scale,
           frame_width = result_width,
           frame_height = result_height,
           frame_x = rounded (rounded (innerWidth win - result_width) / Fin 2),
           frame_y = rounded (rounded (innerHeight win - result_height) / Fin 2) \<rparr>)"


text \<open>
  A layer of \<^verbatim>\<open>exports.layers\<close>: its geometry and its two DOM handles. Of the
  clipping rectangle the model keeps the four attributes that \<^verbatim>\<open>update\<close> sets, and
  of the layer group its \<^verbatim>\<open>transform\<close> attribute, as the list of the transformations
  that the attribute string names, each with the numbers printed in it.
\<close>

record clip_rect =
  rect_x :: number
  rect_y :: number
  rect_width :: number
  rect_height :: number

datatype transform =
    Scale number
  | Translate number number
  | Rotate number number number

record layer =
  geometry :: geometry
  svgClipRect :: clip_rect
  svgLayer :: "transform list"

text \<open>
  \<^verbatim>\<open>exports.layers\<close> is an object whose keys are the identifiers of the layers: a list
  of entries in the order of the \<^verbatim>\<open>for ... in\<close> loops. A loop over all the layers
  visits every entry once and changes the layer of that entry.
\<close>

type_synonym registry = "(string \<times> layer) list"

definition for_each_layer :: "(layer \<Rightarrow> layer) \<Rightarrow> registry \<Rightarrow> registry" where
  "for_each_layer body reg = map (\<lambda>(idLayer, l). (idLayer, body l)) reg"

section \<open>update\<close>

definition update_layer :: "window \<Rightarrow> layer \<Rightarrow> layer" where
  "update_layer win l =
     (let lg = geometry l;
          fg = getFrameGeometry win lg;
          cr = \<lparr> rect_x = (if clip lg then frame_x fg else Fin 0),
                 rect_y = (if clip lg then frame_y fg else Fin 0),
                 rect_width = (if clip lg then frame_width fg else innerWidth win),
                 rect_height = (if clip lg then frame_height fg else innerHeight win) \<rparr>;
          translateX = - cx lg + width lg / Fin 2 + frame_x fg / scale fg;
          translateY = - cy lg + height lg / Fin 2 + frame_y fg / scale fg
      in l\<lparr> svgClipRect := cr,
             svgLayer := [Scale (scale fg),
                          Translate translateX translateY,
                          Rotate (- rotate_deg lg) (cx lg) (cy lg)] \<rparr>)"

definition update :: "window \<Rightarrow> registry \<Rightarrow> registry" where
  "update win reg = for_each_layer (update_layer win) reg"

text \<open>\<^verbatim>\<open>update\<close> with every result rounded to a double.\<close>

definition update_layer_double :: "window \<Rightarrow> layer \<Rightarrow> layer" where
  "update_layer_double win l =
     (let lg = geometry l;
          fg = getFrameGeometry_double win lg;
          cr = \<lparr> rect_x = (if clip lg then frame_x fg else Fin 0),
                 rect_y = (if clip lg then frame_y fg else Fin 0),
                 rect_width = (if clip lg then frame_width fg else innerWidth win),
                 rect_height = (if clip lg then frame_height fg else innerHeight win) \<rparr>;
          translateX = rounded (rounded (- cx lg + rounded (width lg / Fin 2))
                                + rounded (frame_x fg / scale fg));
          translateY = rounded (rounded (- cy lg + rounded (height lg / Fin 2))
                                + rounded (frame_y fg / scale fg))
      in l\<lparr> svgClipRect := cr,
             svgLayer := [Scale (scale fg),
                          Translate translateX translateY,
                          Rotate (- rotate_deg lg) (cx lg) (cy lg)] \<rparr>)"

definition update_double :: "window \<Rightarrow> registry \<Rightarrow> registry" where
  "update_double win reg = for_each_layer (update_layer_double win) reg"


section \<open>showFrame\<close>

text \<open>
  The geometry of a layer in a frame may give only some of the attributes: an attribute
  that the object does not have is \<open>None\<close>.
\<close>

record frame_geometry =
  cx_attr :: "number option"
  cy_attr :: "number option"
  width_attr :: "number option"
  height_attr :: "number option"
  rotate_attr :: "number option"
  clip_attr :: "bool option"

record frame_layer =
  layer_geometry :: frame_geometry

record frame =
  frame_layers :: "(string \<times> frame_layer) list"

text \<open>The loop over the attributes of \<open>fg\<close>: \<^verbatim>\<open>lg[attr] = fg[attr]\<close>.\<close>

definition copy_attrs :: "frame_geometry \<Rightarrow> geometry \<Rightarrow> geometry" where
  "copy_attrs fg lg =
     lg\<lparr> cx := (case cx_attr fg of Some v \<Rightarrow> v | None \<Rightarrow> cx lg),
         cy := (case cy_attr fg of Some v \<Rightarrow> v | None \<Rightarrow> cy lg),
         width := (case width_attr fg of Some v \<Rightarrow> v | None \<Rightarrow> width lg),
         height := (case height_attr fg of Some v \<Rightarrow> v | None \<Rightarrow> height lg),
         rotate_deg := (case rotate_attr fg of Some v \<Rightarrow> v | None \<Rightarrow> rotate_deg lg),
         clip := (case clip_attr fg of Some v \<Rightarrow> v | None \<Rightarrow> clip lg) \<rparr>"

definition modify_layer :: "string \<Rightarrow> (layer \<Rightarrow> layer) \<Rightarrow> registry \<Rightarrow> registry" where
  "modify_layer idLayer f reg = map (\<lambda>(k, l). if k = idLayer then (k, f l) else (k, l)) reg"

text \<open>
  \<^verbatim>\<open>exports.layers[idLayer].geometry\<close> throws a \<open>TypeError\<close> when the display has no
  layer \<open>idLayer\<close>. The loop stops there: the layers visited before keep what was copied
  into them, and \<^verbatim>\<open>update\<close> is not called.
\<close>

datatype error = TypeError

fun showFrame_loop :: "(string \<times> frame_layer) list \<Rightarrow> registry \<Rightarrow> error \<times> registry + registry" where
  "showFrame_loop [] reg = Inr reg"
| "showFrame_loop ((idLayer, fl) # rest) reg =
     (case map_of reg idLayer of
        None \<Rightarrow> Inl (TypeError, reg)
      | Some _ \<Rightarrow>
          showFrame_loop rest
            (modify_layer idLayer (\<lambda>l. l\<lparr> geometry := copy_attrs (layer_geometry fl) (geometry l) \<rparr>) reg))"

definition showFrame :: "window \<Rightarrow> frame \<Rightarrow> registry \<Rightarrow> error \<times> registry + registry" where
  "showFrame win f reg =
     (case showFrame_loop (frame_layers f) reg of
        Inl e \<Rightarrow> Inl e
      | Inr reg' \<Rightarrow> Inr (update win reg'))"

section \<open>drag, zoom and rotate\<close>

definition drag_layer :: "window \<Rightarrow> number \<Rightarrow> number \<Rightarrow> layer \<Rightarrow> layer" where
  "drag_layer win deltaX deltaY l =
     (let lg = geometry l;
          fg = getFrameGeometry win lg;
          angleRad = rotate_deg lg * Math_PI / Fin 180;
          lg1 = lg\<lparr> cx := cx lg - (deltaX * Math_cos angleRad - deltaY * Math_sin angleRad) / scale fg \<rparr>;
          lg2 = lg1\<lparr> cy := cy lg1 - (deltaX * Math_sin angleRad + deltaY * Math_cos angleRad) / scale fg \<rparr>
      in l\<lparr> geometry := lg2\<lparr> clip := False \<rparr> \<rparr>)"

definition drag :: "window \<Rightarrow> number \<Rightarrow> number \<Rightarrow> registry \<Rightarrow> registry" where
  "drag win deltaX deltaY reg = update win (for_each_layer (drag_layer win deltaX deltaY) reg)"

definition zoom_deltaX :: "window \<Rightarrow> number \<Rightarrow> number \<Rightarrow> number" where
  "zoom_deltaX win factor x = (Fin 1 - factor) * (x - innerWidth win / Fin 2)"

definition zoom_deltaY :: "window \<Rightarrow> number \<Rightarrow> number \<Rightarrow> number" where
  "zoom_deltaY win factor y = (Fin 1 - factor) * (y - innerHeight win / Fin 2)"

definition zoom_layer :: "number \<Rightarrow> layer \<Rightarrow> layer" where
  "zoom_layer factor l =
     (let lg = geometry l;
          lg1 = lg\<lparr> width := width lg / factor \<rparr>;
          lg2 = lg1\<lparr> height := height lg1 / factor \<rparr>
      in l\<lparr> geometry := lg2 \<rparr>)"

definition zoom :: "window \<Rightarrow> number \<Rightarrow> number \<Rightarrow> number \<Rightarrow> registry \<Rightarrow> registry" where
  "zoom win factor x y reg =
     (let deltaX = zoom_deltaX win factor x;
          deltaY = zoom_deltaY win factor y
      in drag win deltaX deltaY (for_each_layer (zoom_layer factor) reg))"

definition rotate_layer :: "number \<Rightarrow> layer \<Rightarrow> layer" where
  "rotate_layer angle l =
     (let lg = geometry l;
          lg1 = lg\<lparr> rotate_deg := rotate_deg lg + angle \<rparr>;
          lg2 = lg1\<lparr> rotate_deg := remainder (rotate_deg lg1) (Fin 360) \<rparr>
      in l\<lparr> geometry := lg2 \<rparr>)"

definition rotate_display :: "window \<Rightarrow> number \<Rightarrow> registry \<Rightarrow> registry" where
  "rotate_display win angle reg = update win (for_each_layer (rotate_layer angle) reg)"

text \<open>
  \<^verbatim>\<open>rotate\<close> in doubles. The sum is rounded; the remainder of two doubles is a double,
  so \<^verbatim>\<open>%\<close> does not round.
\<close>

definition rotate_layer_double :: "number \<Rightarrow> layer \<Rightarrow> layer" where
  "rotate_layer_double angle l =
     (let lg = geometry l;
          lg1 = lg\<lparr> rotate_deg := rounded (rotate_deg lg + angle) \<rparr>;
          lg2 = lg1\<lparr> rotate_deg := remainder (rotate_deg lg1) (Fin 360) \<rparr>
      in l\<lparr> geometry := lg2 \<rparr>)"

definition rotate_display_double :: "window \<Rightarrow> number \<Rightarrow> registry \<Rightarrow> registry" where
  "rotate_display_double win angle reg =
     update_double win (for_each_layer (rotate_layer_double angle) reg)"


section \<open>What the operations read, and example states\<close>

text \<open>The part of the registry that the operations read: the geometry of every layer.\<close>

definition geometries :: "registry \<Rightarrow> (string \<times> geometry) list" where
  "geometries reg = map (\<lambda>(idLayer, l). (idLayer, geometry l)) reg"

text \<open>
  The inputs of the examples below: the geometry that \<^verbatim>\<open>onDocumentReady\<close> gives to
  every layer; a layer with a given geometry, whose rectangle and group have not been
  written yet; the geometry of a layer rotated by a quarter turn; a frame that gives three
  of the six attributes for one layer; and a window of \<open>800\<close> by \<open>400\<close> pixels.
\<close>

definition default_geometry :: geometry where
  "default_geometry =
     \<lparr> cx = Fin 0, cy = Fin 0, width = Fin 1, height = Fin 1, rotate_deg = Fin 0, clip = True \<rparr>"

definition layer_of :: "geometry \<Rightarrow> layer" where
  "layer_of g =
     \<lparr> geometry = g,
       svgClipRect = \<lparr> rect_x = Fin 0, rect_y = Fin 0, rect_width = Fin 0, rect_height = Fin 0 \<rparr>,
       svgLayer = [] \<rparr>"

definition rotated_geometry :: geometry where
  "rotated_geometry =
     \<lparr> cx = Fin 50, cy = Fin 60, width = Fin 200, height = Fin 100, rotate_deg = Fin 90, clip = True \<rparr>"

definition partial_frame :: frame where
  "partial_frame =
     \<lparr> frame_layers =
         [(''layer2'',
           \<lparr> layer_geometry =
               \<lparr> cx_attr = Some (Fin 7), cy_attr = None, width_attr = Some (Fin 300),
                 height_attr = None, rotate_attr = None, clip_attr = Some False \<rparr> \<rparr>)] \<rparr>"

definition window_800_400 :: window where
  "window_800_400 = \<lparr> innerWidth = Fin 800, innerHeight = Fin 400 \<rparr>"

section \<open>Arithmetic on finite numbers\<close>

lemma minus_Fin [simp]: "Fin a - Fin b = Fin (a - b)"
  by (simp add: minus_number_def)

lemma trunc_small: "- 360 < x \<Longrightarrow> x < 360 \<Longrightarrow> trunc (x / 360) = 0"
  by (simp add: trunc_def floor_eq_iff ceiling_eq_iff)

lemma remainder_360_nonneg:
  fixes x :: real
  assumes "0 \<le> x"
  shows "0 \<le> x - 360 * of_int (trunc (x / 360))" and "x - 360 * of_int (trunc (x / 360)) < 360"
  using assms by (simp_all add: trunc_def) linarith+

lemma remainder_360_nonpos:
  fixes x :: real
  assumes "x \<le> 0"
  shows "- 360 < x - 360 * of_int (trunc (x / 360))" and "x - 360 * of_int (trunc (x / 360)) \<le> 0"
  using assms by (auto simp add: trunc_def) linarith+

section \<open>The error of rounding\<close>

lemma round_half_even_error: "\<bar>of_int (round_half_even m) - m\<bar> \<le> 1 / 2"
  unfolding round_half_even_def Let_def by (auto; linarith)

lemma ulp_pos: "0 < ulp x"
  by (simp add: ulp_def)

lemma round_double_error: "\<bar>round_double x - x\<bar> \<le> ulp x / 2"
proof (cases "x = 0")
  case True
  then show ?thesis using ulp_pos [of x] by (simp add: round_double_def)
next
  case False
  define q where "q = ulp x"
  define n where "n = round_half_even (x / q)"
  have q: "0 < q"
    by (simp add: q_def ulp_pos)
  then have "of_int n * q - x = (of_int n - x / q) * q"
    by (simp add: field_simps)
  then have "\<bar>of_int n * q - x\<bar> = \<bar>of_int n - x / q\<bar> * q"
    using q by (simp add: abs_mult)
  also have "\<dots> \<le> 1 / 2 * q"
    unfolding n_def using q by (intro mult_right_mono round_half_even_error) simp
  finally show ?thesis
    using False by (simp add: round_double_def q_def n_def)
qed

lemma floor_log_bounds:
  assumes "x \<noteq> 0"
  shows "2 powr of_int \<lfloor>log 2 \<bar>x\<bar>\<rfloor> \<le> \<bar>x\<bar>" and "\<bar>x\<bar> < 2 powr (of_int \<lfloor>log 2 \<bar>x\<bar>\<rfloor> + 1)"
  using assms floor_log_eq_powr_iff [of "\<bar>x\<bar>" 2 "\<lfloor>log 2 \<bar>x\<bar>\<rfloor>"] by simp_all

lemma abs_less_binade:
  assumes "x \<noteq> 0"
  shows "\<bar>x\<bar> < 2 powr (of_int (binade x) + 1)"
proof -
  have "\<bar>x\<bar> < 2 powr (of_int \<lfloor>log 2 \<bar>x\<bar>\<rfloor> + 1)"
    by (rule floor_log_bounds(2) [OF assms])
  also have "\<dots> \<le> 2 powr (of_int (binade x) + 1)"
    by (simp add: binade_def)
  finally show ?thesis .
qed

lemma binade_eq:
  assumes "- 1022 \<le> e" "2 powr of_int e \<le> \<bar>x\<bar>" "\<bar>x\<bar> < 2 powr (of_int e + 1)"
  shows "binade x = e"
proof -
  have "(0 :: real) < 2 powr of_int e"
    by simp
  then have "0 < \<bar>x\<bar>"
    using assms(2) by linarith
  then have "\<lfloor>log 2 \<bar>x\<bar>\<rfloor> = e"
    using assms(2,3) floor_log_eq_powr_iff [of "\<bar>x\<bar>" 2 e] by simp
  then show ?thesis
    using assms(1) by (simp add: binade_def)
qed

lemma binade_normal:
  assumes "2 powr (- 1022) \<le> \<bar>x\<bar>"
  shows "2 powr of_int (binade x) \<le> \<bar>x\<bar>"
proof -
  have "(0 :: real) < 2 powr (- 1022)"
    by simp
  then have nz: "x \<noteq> 0"
    using assms by auto
  show ?thesis
  proof (cases "- 1022 \<le> \<lfloor>log 2 \<bar>x\<bar>\<rfloor>")
    case True
    then have "binade x = \<lfloor>log 2 \<bar>x\<bar>\<rfloor>"
      by (simp add: binade_def)
    then show ?thesis
      using floor_log_bounds(1) [OF nz] by simp
  next
    case False
    then have "binade x = - 1022"
      by (simp add: binade_def)
    then show ?thesis
      using assms by simp
  qed
qed

lemma ulp_normal:
  assumes "2 powr (- 1022) \<le> \<bar>x\<bar>"
  shows "ulp x \<le> \<bar>x\<bar> / 2 ^ 52"
proof -
  have "ulp x = 2 powr of_int (binade x) / 2 ^ 52"
    by (simp add: ulp_def powr_diff)
  also have "\<dots> \<le> \<bar>x\<bar> / 2 ^ 52"
    using binade_normal [OF assms] by (simp add: divide_right_mono)
  finally show ?thesis .
qed

lemma binade_subnormal:
  assumes "x \<noteq> 0" "\<bar>x\<bar> < 2 powr (- 1022)"
  shows "binade x = - 1022"
proof -
  have "(2 :: real) powr of_int \<lfloor>log 2 \<bar>x\<bar>\<rfloor> < 2 powr (- 1022)"
    using floor_log_bounds(1) [OF assms(1)] assms(2) by linarith
  then have "of_int \<lfloor>log 2 \<bar>x\<bar>\<rfloor> < (- 1022 :: real)"
    by simp
  then have "\<lfloor>log 2 \<bar>x\<bar>\<rfloor> < - 1022"
    by linarith
  then show ?thesis
    by (simp add: binade_def)
qed

lemma round_double_relative_error:
  "\<bar>round_double x - x\<bar> \<le> \<bar>x\<bar> / 2 ^ 53 + 1 / 2 ^ 1075"
proof (cases "x = 0")
  case True
  then show ?thesis by (simp add: round_double_def)
next
  case nz: False
  show ?thesis
  proof (cases "2 powr (- 1022) \<le> \<bar>x\<bar>")
    case True
    have "\<bar>round_double x - x\<bar> \<le> ulp x / 2"
      by (rule round_double_error)
    also have "\<dots> \<le> (\<bar>x\<bar> / 2 ^ 52) / 2"
      using ulp_normal [OF True] by simp
    also have "\<dots> = \<bar>x\<bar> / 2 ^ 53"
      by simp
    finally show ?thesis
      by simp
  next
    case False
    then have "binade x = - 1022"
      using binade_subnormal [OF nz] by simp
    then have "ulp x = 2 powr (- 1074)"
      by (simp add: ulp_def)
    then have "ulp x / 2 = 1 / 2 ^ 1075"
      by (simp add: powr_neg_numeral)
    then have "\<bar>round_double x - x\<bar> \<le> 1 / 2 ^ 1075"
      using round_double_error [of x] by simp
    moreover have "0 \<le> \<bar>x\<bar> / 2 ^ 53"
      by simp
    ultimately show ?thesis
      by linarith
  qed
qed

lemma round_double_normal_error:
  assumes "2 powr (- 1022) \<le> \<bar>x\<bar>"
  shows "\<bar>round_double x - x\<bar> \<le> \<bar>x\<bar> / 2 ^ 53"
proof -
  have "\<bar>round_double x - x\<bar> \<le> ulp x / 2"
    by (rule round_double_error)
  also have "\<dots> \<le> (\<bar>x\<bar> / 2 ^ 52) / 2"
    using ulp_normal [OF assms] by simp
  finally show ?thesis
    by simp
qed

lemma round_double_in_binade:
  assumes "- 1022 \<le> e" "2 powr of_int e \<le> \<bar>x\<bar>" "\<bar>x\<bar> < 2 powr (of_int e + 1)"
  shows "round_double x
       = of_int (round_half_even (x / 2 powr (of_int e - 52))) * 2 powr (of_int e - 52)"
proof -
  have "(0 :: real) < 2 powr of_int e"
    by simp
  then have "x \<noteq> 0"
    using assms(2) by auto
  then show ?thesis
    by (simp add: round_double_def ulp_def binade_eq [OF assms])
qed

lemma round_double_bounds:
  assumes "1 / 2 ^ 1022 \<le> x"
  shows "x * (1 - 1 / 2 ^ 53) \<le> round_double x" and "round_double x \<le> x * (1 + 1 / 2 ^ 53)"
proof -
  define d where "d = x / 2 ^ 53"
  have "(0 :: real) < 1 / 2 ^ 1022"
    by simp
  then have pos: "0 < x"
    using assms by linarith
  have "2 powr (- 1022) \<le> \<bar>x\<bar>"
    using assms pos by (simp add: powr_neg_numeral)
  from round_double_normal_error [OF this] have "\<bar>round_double x - x\<bar> \<le> d"
    using pos by (simp add: d_def)
  then have "x - d \<le> round_double x" and "round_double x \<le> x + d"
    by linarith+
  moreover have "x * (1 - 1 / 2 ^ 53) = x - d" and "x * (1 + 1 / 2 ^ 53) = x + d"
    by (simp_all add: d_def algebra_simps)
  ultimately show "x * (1 - 1 / 2 ^ 53) \<le> round_double x"
    and "round_double x \<le> x * (1 + 1 / 2 ^ 53)"
    by simp_all
qed

lemma round_double_abs_le: "\<bar>round_double x\<bar> \<le> 2 * \<bar>x\<bar> + 1"
proof -
  have "\<bar>round_double x - x\<bar> \<le> \<bar>x\<bar> / 2 ^ 53 + 1 / 2 ^ 1075"
    by (rule round_double_relative_error)
  moreover have "\<bar>x\<bar> / 2 ^ 53 \<le> \<bar>x\<bar>"
    by (simp add: field_simps)
  moreover have "(1 / 2 ^ 1075 :: real) \<le> 1"
    by simp
  ultimately show ?thesis
    by linarith
qed

lemma to_double_finite:
  assumes "\<bar>x\<bar> \<le> 2 ^ 1022"
  shows "to_double x = Fin (round_double x)"
proof -
  have "\<bar>round_double x - x\<bar> \<le> \<bar>x\<bar> / 2 ^ 53 + 1 / 2 ^ 1075"
    by (rule round_double_relative_error)
  moreover have "\<bar>x\<bar> / 2 ^ 53 \<le> \<bar>x\<bar>"
    by (simp add: field_simps)
  moreover have "(1 / 2 ^ 1075 :: real) \<le> 1"
    by simp
  ultimately have "\<bar>round_double x\<bar> \<le> 2 * \<bar>x\<bar> + 1"
    by linarith
  also have "\<dots> \<le> 2 * 2 ^ 1022 + 1"
    using assms by simp
  also have "\<dots> < (2 ^ 1024 :: real)"
    by simp
  finally have "\<bar>round_double x\<bar> < 2 ^ 1024" .
  then show ?thesis
    by (simp add: to_double_def Let_def abs_less_iff)
qed

lemma to_double_eval:
  assumes "- 1022 \<le> e" and "q = 2 powr (of_int e - 52)"
    and "q * 2 ^ 52 \<le> \<bar>x\<bar>" and "\<bar>x\<bar> < q * 2 ^ 53"
    and "round_half_even (x / q) = n" and "\<bar>of_int n * q\<bar> < 2 ^ 1024"
  shows "to_double x = Fin (of_int n * q)"
proof -
  have e: "2 powr of_int e = q * 2 ^ 52"
    unfolding assms(2) by (simp add: powr_diff)
  have e1: "2 powr (of_int e + 1) = q * 2 ^ 53"
    unfolding assms(2) by (simp add: powr_diff powr_add)
  have "round_double x = of_int (round_half_even (x / q)) * q"
    unfolding assms(2)
    by (rule round_double_in_binade) (use assms e e1 in simp_all)
  then show ?thesis
    using assms(5,6) by (simp add: to_double_def Let_def abs_less_iff)
qed

lemma rounded_positive:
  assumes "1 / 2 ^ 1022 \<le> x" and "x \<le> 2 ^ 1022"
  shows "rounded (Fin x) = Fin (round_double x)"
    and "x * (1 - 1 / 2 ^ 53) \<le> round_double x"
    and "round_double x \<le> x * (1 + 1 / 2 ^ 53)"
proof -
  have "(0 :: real) < 1 / 2 ^ 1022"
    by simp
  then have "0 < x"
    using assms(1) by linarith
  then have "\<bar>x\<bar> \<le> 2 ^ 1022"
    using assms(2) by simp
  then show "rounded (Fin x) = Fin (round_double x)"
    by (simp add: to_double_finite)
  show "x * (1 - 1 / 2 ^ 53) \<le> round_double x" and "round_double x \<le> x * (1 + 1 / 2 ^ 53)"
    by (rule round_double_bounds [OF assms(1)])+
qed

lemma rounded_quotient:
  fixes B :: real
  assumes "1 / B \<le> W" "W \<le> B" "1 / B \<le> w" "w \<le> B" "0 < B"
  shows "1 / B\<^sup>2 \<le> W / w" and "W / w \<le> B\<^sup>2"
proof -
  have "0 < 1 / B"
    using assms(5) by simp
  then have w: "0 < w" and W: "0 < W"
    using assms(1,3) by linarith+
  have "(1 / B) / B \<le> W / w"
    using assms w W by (intro frac_le) simp_all
  then show "1 / B\<^sup>2 \<le> W / w"
    by (simp add: power2_eq_square)
  have "W / w \<le> B / (1 / B)"
    using assms w W by (intro frac_le) simp_all
  then show "W / w \<le> B\<^sup>2"
    by (simp add: power2_eq_square)
qed

lemma fit_upper:
  fixes u :: real
  assumes "0 < w" "0 \<le> u" "0 \<le> s" "s \<le> a" "a \<le> W / w * (1 + u)" "fw \<le> w * s * (1 + u)"
  shows "fw \<le> W * (1 + u)\<^sup>2"
proof -
  have "w * s \<le> w * a"
    using assms(1,4) by (intro mult_left_mono) simp_all
  also have "\<dots> \<le> w * (W / w * (1 + u))"
    using assms(1,5) by (intro mult_left_mono) simp_all
  also have "\<dots> = W * (1 + u)"
    using assms(1) by simp
  finally have "w * s * (1 + u) \<le> W * (1 + u) * (1 + u)"
    using assms(2) by (simp add: mult_right_mono)
  with assms(6) show ?thesis
    by (simp add: power2_eq_square mult.assoc)
qed

lemma fit_lower:
  fixes u :: real
  assumes "0 < w" "u \<le> 1" "W / w * (1 - u) \<le> a" "w * a * (1 - u) \<le> fw"
  shows "W * (1 - u)\<^sup>2 \<le> fw"
proof -
  have "w * (W / w * (1 - u)) \<le> w * a"
    using assms(1,3) by (intro mult_left_mono) simp_all
  moreover have "w * (W / w * (1 - u)) = W * (1 - u)"
    using assms(1) by simp
  ultimately have "W * (1 - u) \<le> w * a"
    by simp
  then have "W * (1 - u) * (1 - u) \<le> w * a * (1 - u)"
    using assms(2) by (simp add: mult_right_mono)
  with assms(4) show ?thesis
    by (simp add: power2_eq_square mult.assoc)
qed


section \<open>Loops over the layers\<close>

lemma map_of_for_each_layer:
  "map_of (for_each_layer body reg) idLayer = map_option body (map_of reg idLayer)"
  by (simp add: for_each_layer_def map_of_map)

lemma keys_for_each_layer: "map fst (for_each_layer body reg) = map fst reg"
  by (simp add: for_each_layer_def case_prod_unfold)

lemma geometry_update_layer: "geometry (update_layer win l) = geometry l"
  by (simp add: update_layer_def Let_def)

lemma map_of_update:
  "map_of (update win reg) idLayer = map_option (update_layer win) (map_of reg idLayer)"
  by (simp add: update_def map_of_for_each_layer)

lemma keys_update: "map fst (update win reg) = map fst reg"
  by (simp add: update_def keys_for_each_layer)

lemma geometries_update: "geometries (update win reg) = geometries reg"
  by (simp add: geometries_def update_def for_each_layer_def case_prod_unfold geometry_update_layer)

lemma geometry_layer_of: "geometry (layer_of g) = g"
  by (simp add: layer_of_def)

section \<open>The frame of a layer in the window\<close>

lemma getFrameGeometry_Fin:
  assumes "width g = Fin w" "height g = Fin h" "innerWidth win = Fin W" "innerHeight win = Fin H"
    and "w \<noteq> 0" "h \<noteq> 0"
  shows "getFrameGeometry win g =
    \<lparr> scale = Fin (min (W / w) (H / h)),
      frame_width = Fin (w * min (W / w) (H / h)),
      frame_height = Fin (h * min (W / w) (H / h)),
      frame_x = Fin ((W - w * min (W / w) (H / h)) / 2),
      frame_y = Fin ((H - h * min (W / w) (H / h)) / 2) \<rparr>"
  using assms by (simp add: getFrameGeometry_def Let_def)

text \<open>
  C1, as amended. For a layer geometry of width \<open>w\<close> and height \<open>h\<close> and a window of size
  \<open>W\<close>, \<open>H\<close>, all four between \<open>2 ^ -300\<close> and \<open>2 ^ 300\<close>, \<^verbatim>\<open>getFrameGeometry\<close>,
  computed in doubles, returns \<open>scale = min (fl (W / w)) (fl (H / h))\<close>,
  \<open>width = fl (w * scale)\<close>, \<open>height = fl (h * scale)\<close>, \<open>x = fl (fl (W - width) / 2)\<close> and
  \<open>y = fl (fl (H - height) / 2)\<close>, where \<open>fl\<close> rounds to the nearest double. The frame fits
  the window up to two roundings: \<open>width \<le> W * (1 + 2 ^ -53)\<^sup>2\<close> and
  \<open>height \<le> H * (1 + 2 ^ -53)\<^sup>2\<close>, and in at least one of the two dimensions the frame
  reaches the window up to two roundings: \<open>W * (1 - 2 ^ -53)\<^sup>2 \<le> width\<close> or
  \<open>H * (1 - 2 ^ -53)\<^sup>2 \<le> height\<close>.
\<close>

theorem getFrameGeometry_double_fit:
  assumes "width g = Fin w" "height g = Fin h"
    and "innerWidth win = Fin W" "innerHeight win = Fin H"
    and "1 / 2 ^ 300 \<le> w" "w \<le> 2 ^ 300" "1 / 2 ^ 300 \<le> h" "h \<le> 2 ^ 300"
    and "1 / 2 ^ 300 \<le> W" "W \<le> 2 ^ 300" "1 / 2 ^ 300 \<le> H" "H \<le> 2 ^ 300"
  shows "let s = min (round_double (W / w)) (round_double (H / h));
             fw = round_double (w * s);
             fh = round_double (h * s)
         in scale (getFrameGeometry_double win g) = Fin s
          \<and> frame_width (getFrameGeometry_double win g) = Fin fw
          \<and> frame_height (getFrameGeometry_double win g) = Fin fh
          \<and> frame_x (getFrameGeometry_double win g) = Fin (round_double (round_double (W - fw) / 2))
          \<and> frame_y (getFrameGeometry_double win g) = Fin (round_double (round_double (H - fh) / 2))
          \<and> fw \<le> W * (1 + 1 / 2 ^ 53)\<^sup>2
          \<and> fh \<le> H * (1 + 1 / 2 ^ 53)\<^sup>2
          \<and> (W * (1 - 1 / 2 ^ 53)\<^sup>2 \<le> fw \<or> H * (1 - 1 / 2 ^ 53)\<^sup>2 \<le> fh)"
proof -
  define B :: real where "B = 2 ^ 300"
  define u :: real where "u = 1 / 2 ^ 53"
  define a where "a = round_double (W / w)"
  define b where "b = round_double (H / h)"
  define s where "s = min a b"
  define fw where "fw = round_double (w * s)"
  define fh where "fh = round_double (h * s)"
  have B: "0 < B" "1 / B \<le> w" "w \<le> B" "1 / B \<le> h" "h \<le> B"
    "1 / B \<le> W" "W \<le> B" "1 / B \<le> H" "H \<le> B"
    using assms by (simp_all add: B_def)
  have num: "(1 / 2 ^ 1022 :: real) \<le> 1 / B\<^sup>2" "B\<^sup>2 \<le> 2 ^ 1022"
    "(1 / 2 ^ 1022 :: real) \<le> 1 / B * (1 / B\<^sup>2 * (1 / 2))" "B * (B\<^sup>2 * 2) \<le> 2 ^ 1022"
    by (simp_all add: B_def)
  have u: "0 \<le> u" "u \<le> 1" "1 / 2 \<le> 1 - u" "1 + u \<le> 2" "1 / 2 ^ 53 = u"
    by (simp_all add: u_def)
  have "0 < 1 / B"
    using B(1) by simp
  then have pos: "0 < w" "0 < h" "0 < W" "0 < H"
    using B(2,4,6,8) by linarith+
  note qw = rounded_quotient [OF B(6,7,2,3,1)]
  note qh = rounded_quotient [OF B(8,9,4,5,1)]
  have ra: "rounded (Fin (W / w)) = Fin a" "W / w * (1 - u) \<le> a" "a \<le> W / w * (1 + u)"
    unfolding a_def u(5) [symmetric]
    by (rule rounded_positive; use qw num in linarith)+
  have rb: "rounded (Fin (H / h)) = Fin b" "H / h * (1 - u) \<le> b" "b \<le> H / h * (1 + u)"
    unfolding b_def u(5) [symmetric]
    by (rule rounded_positive; use qh num in linarith)+
  have a_lo: "1 / B\<^sup>2 * (1 / 2) \<le> a"
  proof -
    have "1 / B\<^sup>2 * (1 / 2) \<le> W / w * (1 - u)"
      using qw(1) u(3) B(1) pos by (intro mult_mono) simp_all
    with ra(2) show ?thesis by linarith
  qed
  have b_lo: "1 / B\<^sup>2 * (1 / 2) \<le> b"
  proof -
    have "1 / B\<^sup>2 * (1 / 2) \<le> H / h * (1 - u)"
      using qh(1) u(3) B(1) pos by (intro mult_mono) simp_all
    with rb(2) show ?thesis by linarith
  qed
  have a_hi: "a \<le> B\<^sup>2 * 2"
  proof -
    have "W / w * (1 + u) \<le> B\<^sup>2 * 2"
      using qw(2) u(1,4) pos by (intro mult_mono) simp_all
    with ra(3) show ?thesis by linarith
  qed
  have s_lo: "1 / B\<^sup>2 * (1 / 2) \<le> s" and s_hi: "s \<le> B\<^sup>2 * 2" and s_le: "s \<le> a" "s \<le> b"
    using a_lo b_lo a_hi by (simp_all add: s_def)
  have "0 < 1 / B\<^sup>2 * (1 / 2)"
    using B(1) by simp
  then have s_pos: "0 < s"
    using s_lo by linarith
  have ws_lo: "1 / B * (1 / B\<^sup>2 * (1 / 2)) \<le> w * s"
    using B(1,2) s_lo pos by (intro mult_mono) simp_all
  have ws_hi: "w * s \<le> B * (B\<^sup>2 * 2)"
    using B(1,3) s_hi s_pos pos by (intro mult_mono) simp_all
  have hs_lo: "1 / B * (1 / B\<^sup>2 * (1 / 2)) \<le> h * s"
    using B(1,4) s_lo pos by (intro mult_mono) simp_all
  have hs_hi: "h * s \<le> B * (B\<^sup>2 * 2)"
    using B(1,5) s_hi s_pos pos by (intro mult_mono) simp_all
  have rw: "rounded (Fin (w * s)) = Fin fw" "w * s * (1 - u) \<le> fw" "fw \<le> w * s * (1 + u)"
    unfolding fw_def u(5) [symmetric]
    by (rule rounded_positive; use ws_lo ws_hi num in linarith)+
  have rh: "rounded (Fin (h * s)) = Fin fh" "h * s * (1 - u) \<le> fh" "fh \<le> h * s * (1 + u)"
    unfolding fh_def u(5) [symmetric]
    by (rule rounded_positive; use hs_lo hs_hi num in linarith)+
  have up_w: "fw \<le> W * (1 + u)\<^sup>2"
    by (rule fit_upper [OF pos(1) u(1) less_imp_le [OF s_pos] s_le(1) ra(3) rw(3)])
  have up_h: "fh \<le> H * (1 + u)\<^sup>2"
    by (rule fit_upper [OF pos(2) u(1) less_imp_le [OF s_pos] s_le(2) rb(3) rh(3)])
  have low: "W * (1 - u)\<^sup>2 \<le> fw \<or> H * (1 - u)\<^sup>2 \<le> fh"
  proof (cases "a \<le> b")
    case True
    then have "s = a" by (simp add: s_def)
    with rw(2) have "w * a * (1 - u) \<le> fw" by simp
    from fit_lower [OF pos(1) u(2) ra(2) this] show ?thesis ..
  next
    case False
    then have "s = b" by (simp add: s_def)
    with rh(2) have "h * b * (1 - u) \<le> fh" by simp
    from fit_lower [OF pos(2) u(2) rb(2) this] show ?thesis ..
  qed
  define K where "K = 2 * (B * (B\<^sup>2 * 2)) + 1"
  have K: "B + K + 1 \<le> 2 ^ 1022"
    by (simp add: K_def B_def)
  have "\<bar>fw\<bar> \<le> 2 * \<bar>w * s\<bar> + 1" and "\<bar>fh\<bar> \<le> 2 * \<bar>h * s\<bar> + 1"
    unfolding fw_def fh_def by (rule round_double_abs_le)+
  moreover have "\<bar>w * s\<bar> \<le> B * (B\<^sup>2 * 2)" and "\<bar>h * s\<bar> \<le> B * (B\<^sup>2 * 2)"
    using ws_hi hs_hi s_pos pos by (simp_all add: abs_mult)
  ultimately have fw_abs: "\<bar>fw\<bar> \<le> K" and fh_abs: "\<bar>fh\<bar> \<le> K"
    unfolding K_def by linarith+
  have x0: "\<bar>W - fw\<bar> \<le> B + K" and y0: "\<bar>H - fh\<bar> \<le> B + K"
    using fw_abs fh_abs B(7,9) pos by linarith+
  have x1: "\<bar>W - fw\<bar> \<le> 2 ^ 1022" and y1: "\<bar>H - fh\<bar> \<le> 2 ^ 1022"
    using x0 y0 K by linarith+
  have "\<bar>round_double (W - fw)\<bar> \<le> 2 * \<bar>W - fw\<bar> + 1"
    and "\<bar>round_double (H - fh)\<bar> \<le> 2 * \<bar>H - fh\<bar> + 1"
    by (rule round_double_abs_le)+
  then have "\<bar>round_double (W - fw) / 2\<bar> \<le> \<bar>W - fw\<bar> + 1"
    and "\<bar>round_double (H - fh) / 2\<bar> \<le> \<bar>H - fh\<bar> + 1"
    by simp_all
  then have x2: "\<bar>round_double (W - fw) / 2\<bar> \<le> 2 ^ 1022"
    and y2: "\<bar>round_double (H - fh) / 2\<bar> \<le> 2 ^ 1022"
    using x0 y0 K by linarith+
  have fx: "rounded (rounded (Fin W - Fin fw) / Fin 2) = Fin (round_double (round_double (W - fw) / 2))"
    using x2 by (simp add: to_double_finite [OF x1] to_double_finite)
  have fy: "rounded (rounded (Fin H - Fin fh) / Fin 2) = Fin (round_double (round_double (H - fh) / 2))"
    using y2 by (simp add: to_double_finite [OF y1] to_double_finite)
  have sc: "Math_min (rounded (Fin W / Fin w)) (rounded (Fin H / Fin h)) = Fin s"
    using pos ra(1) rb(1) by (simp add: s_def)
  have fg: "getFrameGeometry_double win g =
      \<lparr> scale = Fin s, frame_width = Fin fw, frame_height = Fin fh,
        frame_x = Fin (round_double (round_double (W - fw) / 2)),
        frame_y = Fin (round_double (round_double (H - fh) / 2)) \<rparr>"
    unfolding getFrameGeometry_double_def Let_def assms(1-4) sc
    using rw(1) rh(1) fx fy by simp
  show ?thesis
    unfolding Let_def a_def [symmetric] b_def [symmetric] s_def [symmetric]
      fw_def [symmetric] fh_def [symmetric] u(5)
    using up_w up_h low by (simp add: fg)
qed

text \<open>
  A layer of size \<open>(170, 10)\<close> in a window of \<open>(1920, 1080)\<close>: the width of the frame is
  the rounded product, within two roundings of \<open>1920\<close>.
\<close>

theorem getFrameGeometry_double_fit_witness:
  "((1 / 2 ^ 300 :: real) \<le> 170 \<and> (170 :: real) \<le> 2 ^ 300
    \<and> (1 / 2 ^ 300 :: real) \<le> 10 \<and> (10 :: real) \<le> 2 ^ 300
    \<and> (1 / 2 ^ 300 :: real) \<le> 1920 \<and> (1920 :: real) \<le> 2 ^ 300
    \<and> (1 / 2 ^ 300 :: real) \<le> 1080 \<and> (1080 :: real) \<le> 2 ^ 300)
   \<and> frame_width (getFrameGeometry_double \<lparr> innerWidth = Fin 1920, innerHeight = Fin 1080 \<rparr>
          (default_geometry\<lparr> width := Fin 170, height := Fin 10 \<rparr>))
       = Fin (round_double (170 * min (round_double (1920 / 170)) (round_double (1080 / 10))))
   \<and> round_double (170 * min (round_double (1920 / 170)) (round_double (1080 / 10)))
       \<le> 1920 * (1 + 1 / 2 ^ 53)\<^sup>2"
proof -
  have range: "(1 / 2 ^ 300 :: real) \<le> 170" "(170 :: real) \<le> 2 ^ 300"
    "(1 / 2 ^ 300 :: real) \<le> 10" "(10 :: real) \<le> 2 ^ 300"
    "(1 / 2 ^ 300 :: real) \<le> 1920" "(1920 :: real) \<le> 2 ^ 300"
    "(1 / 2 ^ 300 :: real) \<le> 1080" "(1080 :: real) \<le> 2 ^ 300"
    by simp_all
  have g: "width (default_geometry\<lparr> width := Fin 170, height := Fin 10 \<rparr>) = Fin 170"
    "height (default_geometry\<lparr> width := Fin 170, height := Fin 10 \<rparr>) = Fin 10"
    "innerWidth \<lparr> innerWidth = Fin 1920, innerHeight = Fin 1080 \<rparr> = Fin 1920"
    "innerHeight \<lparr> innerWidth = Fin 1920, innerHeight = Fin 1080 \<rparr> = Fin 1080"
    by simp_all
  note fit = getFrameGeometry_double_fit [OF g range, unfolded Let_def]
  from fit have "frame_width (getFrameGeometry_double \<lparr> innerWidth = Fin 1920, innerHeight = Fin 1080 \<rparr>
          (default_geometry\<lparr> width := Fin 170, height := Fin 10 \<rparr>))
       = Fin (round_double (170 * min (round_double (1920 / 170)) (round_double (1080 / 10))))"
    by blast
  moreover from fit
  have "round_double (170 * min (round_double (1920 / 170)) (round_double (1080 / 10)))
       \<le> 1920 * (1 + 1 / 2 ^ 53)\<^sup>2"
    by blast
  ultimately show ?thesis
    using range by blast
qed

text \<open>
  C1 as stated fails in doubles. For a layer of size \<open>(1, 11)\<close> in the window of
  \<open>(800, 400)\<close> the scale is the double nearest to \<open>400 / 11\<close>; the height of the frame is
  \<open>400 + 2 ^ -44\<close> (printed \<open>400.00000000000006\<close>), more than the height of the window; \<open>y\<close>
  is \<open>- 2 ^ -45\<close>; and the width of the frame is the scale, not the width of the window: the
  frame does not fit, and neither dimension is equal.
\<close>

theorem getFrameGeometry_double_counterexample:
  "frame_height (getFrameGeometry_double window_800_400
       (default_geometry\<lparr> width := Fin 1, height := Fin 11 \<rparr>))
     = Fin (400 + 1 / 2 ^ 44)
   \<and> frame_width (getFrameGeometry_double window_800_400
       (default_geometry\<lparr> width := Fin 1, height := Fin 11 \<rparr>))
     = Fin (5117726849284655 / 2 ^ 47)
   \<and> frame_y (getFrameGeometry_double window_800_400
       (default_geometry\<lparr> width := Fin 1, height := Fin 11 \<rparr>))
     = Fin (- (1 / 2 ^ 45))
   \<and> \<not> (400 + 1 / 2 ^ 44 \<le> (400 :: real))
   \<and> (5117726849284655 / 2 ^ 47 :: real) \<noteq> 800"
proof -
  define s :: real where "s = 5117726849284655 / 2 ^ 47"
  define fh :: real where "fh = 400 + 1 / 2 ^ 44"
  have a: "to_double 800 = Fin 800"
    using to_double_eval [where e = 9 and q = "1 / 2 ^ 43" and x = 800 and n = 7036874417766400]
    by (simp add: powr_neg_numeral round_half_even_def Let_def)
  have b: "to_double (400 / 11) = Fin s"
    unfolding s_def
    using to_double_eval [where e = 5 and q = "1 / 2 ^ 47" and x = "400 / 11" and n = 5117726849284655]
    by (simp add: powr_neg_numeral round_half_even_def Let_def)
  have m: "min 800 s = s"
    by (simp add: s_def)
  have w: "to_double s = Fin s"
    unfolding s_def
    using to_double_eval [where e = 5 and q = "1 / 2 ^ 47" and x = "5117726849284655 / 2 ^ 47"
        and n = 5117726849284655]
    by (simp add: powr_neg_numeral round_half_even_def Let_def)
  have h: "to_double (11 * s) = Fin fh"
    unfolding s_def fh_def
    using to_double_eval [where e = 8 and q = "1 / 2 ^ 44" and x = "11 * (5117726849284655 / 2 ^ 47)"
        and n = 7036874417766401]
    by (simp add: powr_neg_numeral round_half_even_def Let_def)
  have y1: "to_double (400 - fh) = Fin (- (1 / 2 ^ 44))"
    unfolding fh_def
    using to_double_eval [where e = "- 44" and q = "1 / 2 ^ 96" and x = "400 - (400 + 1 / 2 ^ 44)"
        and n = "- (2 ^ 52)"]
    by (simp add: powr_neg_numeral round_half_even_def Let_def)
  have y2: "to_double (- (1 / 2 ^ 44) / 2) = Fin (- (1 / 2 ^ 45))"
    using to_double_eval [where e = "- 45" and q = "1 / 2 ^ 97" and x = "- (1 / 2 ^ 44) / 2"
        and n = "- (2 ^ 52)"]
    by (simp add: powr_neg_numeral round_half_even_def Let_def)
  have fg: "getFrameGeometry_double window_800_400
       (default_geometry\<lparr> width := Fin 1, height := Fin 11 \<rparr>)
      = \<lparr> scale = Fin s, frame_width = Fin s, frame_height = Fin fh,
          frame_x = rounded (rounded (Fin 800 - Fin s) / Fin 2),
          frame_y = Fin (- (1 / 2 ^ 45)) \<rparr>"
    by (simp add: getFrameGeometry_double_def window_800_400_def default_geometry_def Let_def
        a b m w h y1 y2 [simplified])
  show ?thesis
    unfolding fg by (simp add: s_def fh_def)
qed

text \<open>
  C2, as amended. A layer of size \<open>(200, 100)\<close>, rotation \<open>0\<close> and \<open>clip = true\<close>,
  whatever its centre, in a window of size \<open>(800, 400)\<close>: both ratios \<open>800 / 200\<close> and
  \<open>400 / 100\<close> are \<open>4\<close>, so \<^verbatim>\<open>getFrameGeometry\<close> returns
  \<open>{scale = 4, width = 800, height = 400, x = 0, y = 0}\<close>: the frame fills the window.
\<close>

theorem getFrameGeometry_example:
  "getFrameGeometry \<lparr> innerWidth = Fin 800, innerHeight = Fin 400 \<rparr>
     \<lparr> cx = c1, cy = c2, width = Fin 200, height = Fin 100, rotate_deg = Fin 0, clip = True \<rparr>
   = \<lparr> scale = Fin 4, frame_width = Fin 800, frame_height = Fin 400,
       frame_x = Fin 0, frame_y = Fin 0 \<rparr>"
  by (simp add: getFrameGeometry_def Let_def)

text \<open>
  The frame stated in C2, \<open>{scale = 2, width = 400, height = 200, x = 200, y = 100}\<close>, is
  not the one computed: it would leave half of the window unused in both dimensions.
\<close>

theorem getFrameGeometry_example_counterexample:
  "getFrameGeometry \<lparr> innerWidth = Fin 800, innerHeight = Fin 400 \<rparr>
     \<lparr> cx = Fin 0, cy = Fin 0, width = Fin 200, height = Fin 100, rotate_deg = Fin 0, clip = True \<rparr>
   \<noteq> \<lparr> scale = Fin 2, frame_width = Fin 400, frame_height = Fin 200,
       frame_x = Fin 200, frame_y = Fin 100 \<rparr>
   \<and> scale (getFrameGeometry \<lparr> innerWidth = Fin 800, innerHeight = Fin 400 \<rparr>
     \<lparr> cx = Fin 0, cy = Fin 0, width = Fin 200, height = Fin 100, rotate_deg = Fin 0, clip = True \<rparr>)
     = Fin 4"
  by (simp add: getFrameGeometry_def Let_def)

section \<open>rotate\<close>


lemma geometry_rotate_update_layer:
  "geometry (rotate_layer angle (update_layer win l)) = geometry (rotate_layer angle l)"
  by (simp add: rotate_layer_def Let_def geometry_update_layer)





lemma geometry_update_layer_double: "geometry (update_layer_double win l) = geometry l"
  by (simp add: update_layer_double_def Let_def)

lemma map_of_rotate_display_double:
  "map_of (rotate_display_double win angle reg) idLayer
     = map_option (\<lambda>l. update_layer_double win (rotate_layer_double angle l)) (map_of reg idLayer)"
  by (simp add: rotate_display_double_def update_double_def map_of_for_each_layer
      option.map_comp comp_def)

lemma geometry_rotate_update_layer_double:
  "geometry (rotate_layer_double angle (update_layer_double win l))
     = geometry (rotate_layer_double angle l)"
  by (simp add: rotate_layer_double_def Let_def geometry_update_layer_double)

lemma geometry_rotate_layer_double:
  assumes "rotate_deg (geometry l) = Fin r" and "\<bar>r + a\<bar> \<le> 2 ^ 1022"
  shows "geometry (rotate_layer_double (Fin a) l)
       = (geometry l)\<lparr> rotate_deg :=
            Fin (round_double (r + a) - 360 * of_int (trunc (round_double (r + a) / 360))) \<rparr>"
  using assms by (simp add: rotate_layer_double_def Let_def to_double_finite)


text \<open>
  C4, as amended. For a layer of finite rotation \<open>r\<close> and a finite angle \<open>a\<close>, both of
  absolute value at most \<open>2 ^ 1000\<close>, \<^verbatim>\<open>rotate(a)\<close> followed by \<^verbatim>\<open>rotate(-a)\<close>, computed
  in doubles, leaves every other attribute of the geometry as it was, and a rotation \<open>r'\<close>
  that is congruent to \<open>r\<close> modulo \<open>360\<close> up to the rounding of the two sums: for an
  integer \<open>k\<close>, \<open>\<bar>r' - (r + 360 * k)\<bar> \<le> (\<bar>r + a\<bar> + \<bar>a\<bar> + 360) / 2 ^ 53 + 2 ^ -1074\<close>.
\<close>

theorem rotate_double_round_trip:
  assumes "map_of reg idLayer = Some l" and "rotate_deg (geometry l) = Fin r"
    and "\<bar>r\<bar> \<le> 2 ^ 1000" and "\<bar>a\<bar> \<le> 2 ^ 1000"
  shows "\<exists>(k :: int) r'.
     map_option geometry
       (map_of (rotate_display_double win' (- Fin a) (rotate_display_double win (Fin a) reg)) idLayer)
     = Some ((geometry l)\<lparr> rotate_deg := Fin r' \<rparr>)
     \<and> \<bar>r' - (r + 360 * of_int k)\<bar> \<le> (\<bar>r + a\<bar> + \<bar>a\<bar> + 360) / 2 ^ 53 + 1 / 2 ^ 1074"
proof -
  define s1 where "s1 = round_double (r + a)"
  define k1 where "k1 = trunc (s1 / 360)"
  define m1 where "m1 = s1 - 360 * of_int k1"
  define s2 where "s2 = round_double (m1 + - a)"
  define k2 where "k2 = trunc (s2 / 360)"
  define m2 where "m2 = s2 - 360 * of_int k2"
  have big: "(2 ^ 1000 :: real) + 2 ^ 1000 \<le> 2 ^ 1022" "(360 :: real) + 2 ^ 1000 \<le> 2 ^ 1022"
    by simp_all
  have ra: "\<bar>r + a\<bar> \<le> 2 ^ 1022"
    using assms(3,4) big(1) by linarith
  have m1_small: "\<bar>m1\<bar> < 360"
    using remainder_360_nonneg [of s1] remainder_360_nonpos [of s1]
    by (cases "0 \<le> s1") (simp_all add: m1_def k1_def)
  then have m1a: "\<bar>m1 + - a\<bar> \<le> 2 ^ 1022"
    using assms(4) big(2) by linarith
  have g1: "geometry (rotate_layer_double (Fin a) l) = (geometry l)\<lparr> rotate_deg := Fin m1 \<rparr>"
    using geometry_rotate_layer_double [OF assms(2) ra] by (simp add: m1_def k1_def s1_def)
  then have "rotate_deg (geometry (rotate_layer_double (Fin a) l)) = Fin m1"
    by simp
  from geometry_rotate_layer_double [OF this m1a]
  have g2: "geometry (rotate_layer_double (Fin (- a)) (rotate_layer_double (Fin a) l))
      = (geometry l)\<lparr> rotate_deg := Fin m2 \<rparr>"
    by (simp add: g1 m2_def k2_def s2_def)
  have e1: "\<bar>s1 - (r + a)\<bar> \<le> \<bar>r + a\<bar> / 2 ^ 53 + 1 / 2 ^ 1075"
    unfolding s1_def by (rule round_double_relative_error)
  have e2: "\<bar>s2 - (m1 + - a)\<bar> \<le> \<bar>m1 + - a\<bar> / 2 ^ 53 + 1 / 2 ^ 1075"
    unfolding s2_def by (rule round_double_relative_error)
  have "\<bar>m1 + - a\<bar> \<le> \<bar>a\<bar> + 360"
    using m1_small by linarith
  then have "\<bar>m1 + - a\<bar> / 2 ^ 53 \<le> (\<bar>a\<bar> + 360) / 2 ^ 53"
    by (simp add: divide_right_mono)
  with e2 have e2': "\<bar>s2 - (m1 + - a)\<bar> \<le> (\<bar>a\<bar> + 360) / 2 ^ 53 + 1 / 2 ^ 1075"
    by linarith
  have "m2 - (r + 360 * of_int (- (k1 + k2))) = (s2 - (m1 + - a)) + (s1 - (r + a))"
    by (simp add: m2_def m1_def)
  then have "\<bar>m2 - (r + 360 * of_int (- (k1 + k2)))\<bar>
      \<le> \<bar>s2 - (m1 + - a)\<bar> + \<bar>s1 - (r + a)\<bar>"
    by linarith
  also have "\<dots> \<le> ((\<bar>a\<bar> + 360) / 2 ^ 53 + 1 / 2 ^ 1075) + (\<bar>r + a\<bar> / 2 ^ 53 + 1 / 2 ^ 1075)"
    using e1 e2' by linarith
  also have "\<dots> = (\<bar>r + a\<bar> + \<bar>a\<bar> + 360) / 2 ^ 53 + 1 / 2 ^ 1074"
    by (simp add: add_divide_distrib)
  finally have bound: "\<bar>m2 - (r + 360 * of_int (- (k1 + k2)))\<bar>
      \<le> (\<bar>r + a\<bar> + \<bar>a\<bar> + 360) / 2 ^ 53 + 1 / 2 ^ 1074" .
  have "map_option geometry
       (map_of (rotate_display_double win' (- Fin a) (rotate_display_double win (Fin a) reg)) idLayer)
     = Some ((geometry l)\<lparr> rotate_deg := Fin m2 \<rparr>)"
    using assms(1)
    by (simp add: map_of_rotate_display_double geometry_update_layer_double
        geometry_rotate_update_layer_double g2)
  with bound show ?thesis
    by blast
qed

text \<open>From \<open>350\<close>, \<^verbatim>\<open>rotate(20)\<close> and \<^verbatim>\<open>rotate(-20)\<close>.\<close>

theorem rotate_double_round_trip_witness:
  "map_of [(''layer1'', layer_of (default_geometry\<lparr> rotate_deg := Fin 350 \<rparr>))] ''layer1''
     = Some (layer_of (default_geometry\<lparr> rotate_deg := Fin 350 \<rparr>))
   \<and> rotate_deg (geometry (layer_of (default_geometry\<lparr> rotate_deg := Fin 350 \<rparr>))) = Fin 350
   \<and> \<bar>350 :: real\<bar> \<le> 2 ^ 1000 \<and> \<bar>20 :: real\<bar> \<le> 2 ^ 1000
   \<and> (\<exists>(k :: int) r'.
       map_option geometry
         (map_of (rotate_display_double window_800_400 (- Fin 20)
            (rotate_display_double window_800_400 (Fin 20)
               [(''layer1'', layer_of (default_geometry\<lparr> rotate_deg := Fin 350 \<rparr>))])) ''layer1'')
       = Some ((geometry (layer_of (default_geometry\<lparr> rotate_deg := Fin 350 \<rparr>)))\<lparr> rotate_deg := Fin r' \<rparr>)
       \<and> \<bar>r' - (350 + 360 * of_int k)\<bar> \<le> (\<bar>350 + 20\<bar> + \<bar>20\<bar> + 360) / 2 ^ 53 + 1 / 2 ^ 1074)"
proof -
  have registered:
    "map_of [(''layer1'', layer_of (default_geometry\<lparr> rotate_deg := Fin 350 \<rparr>))] ''layer1''
       = Some (layer_of (default_geometry\<lparr> rotate_deg := Fin 350 \<rparr>))"
    by simp
  have rotation:
    "rotate_deg (geometry (layer_of (default_geometry\<lparr> rotate_deg := Fin 350 \<rparr>))) = Fin 350"
    by (simp add: geometry_layer_of)
  have range: "\<bar>350 :: real\<bar> \<le> 2 ^ 1000" "\<bar>20 :: real\<bar> \<le> 2 ^ 1000"
    by simp_all
  note trip = rotate_double_round_trip [OF registered rotation range,
      of window_800_400 window_800_400]
  show ?thesis
    using registered rotation range trip by blast
qed

text \<open>
  C4 as stated fails in doubles. From the rotation \<open>0.1\<close>, which is the double
  \<open>3602879701896397 / 2 ^ 55\<close>, \<^verbatim>\<open>rotate(0.2)\<close> and \<^verbatim>\<open>rotate(-0.2)\<close>, where \<open>0.2\<close> is
  the double \<open>3602879701896397 / 2 ^ 54\<close>, leave \<open>1801439850948199 / 2 ^ 54\<close> (printed
  \<open>0.10000000000000003\<close>). It is more than the rotation before by \<open>2 ^ -55\<close>, which is not a
  multiple of \<open>360\<close>.
\<close>

theorem rotate_double_round_trip_counterexample:
  "map_option (rotate_deg \<circ> geometry)
     (map_of
        (rotate_display_double window_800_400 (- Fin (3602879701896397 / 2 ^ 54))
           (rotate_display_double window_800_400 (Fin (3602879701896397 / 2 ^ 54))
              [(''layer1'',
                layer_of (default_geometry\<lparr> rotate_deg := Fin (3602879701896397 / 2 ^ 55) \<rparr>))]))
        ''layer1'')
     = Some (Fin (1801439850948199 / 2 ^ 54))
   \<and> (0 :: real) < 1801439850948199 / 2 ^ 54 - 3602879701896397 / 2 ^ 55
   \<and> (1801439850948199 / 2 ^ 54 - 3602879701896397 / 2 ^ 55 :: real) < 360"
proof -
  define r :: real where "r = 3602879701896397 / 2 ^ 55"
  define a :: real where "a = 3602879701896397 / 2 ^ 54"
  define s1 :: real where "s1 = 5404319552844596 / 2 ^ 54"
  define s2 :: real where "s2 = 1801439850948199 / 2 ^ 54"
  have t1: "to_double (r + a) = Fin s1"
    unfolding r_def a_def s1_def
    using to_double_eval [where e = "- 2" and q = "1 / 2 ^ 54"
        and x = "3602879701896397 / 2 ^ 55 + 3602879701896397 / 2 ^ 54"
        and n = 5404319552844596]
    by (simp add: powr_neg_numeral round_half_even_def Let_def)
  have t2: "to_double (s1 - a) = Fin s2"
    unfolding a_def s1_def s2_def
    using to_double_eval [where e = "- 4" and q = "1 / 2 ^ 56"
        and x = "5404319552844596 / 2 ^ 54 - 3602879701896397 / 2 ^ 54"
        and n = 7205759403792796]
    by (simp add: powr_neg_numeral round_half_even_def Let_def)
  have small: "trunc (s1 / 360) = 0" "trunc (s2 / 360) = 0"
    by (rule trunc_small; simp add: s1_def s2_def)+
  have "map_option (rotate_deg \<circ> geometry)
     (map_of
        (rotate_display_double window_800_400 (- Fin a)
           (rotate_display_double window_800_400 (Fin a)
              [(''layer1'', layer_of (default_geometry\<lparr> rotate_deg := Fin r \<rparr>))]))
        ''layer1'')
     = Some (Fin s2)"
    by (simp add: map_of_rotate_display_double geometry_update_layer_double
        geometry_rotate_update_layer_double rotate_layer_double_def Let_def geometry_layer_of
        t1 t2 small)
  then have "map_option (rotate_deg \<circ> geometry)
     (map_of
        (rotate_display_double window_800_400 (- Fin (3602879701896397 / 2 ^ 54))
           (rotate_display_double window_800_400 (Fin (3602879701896397 / 2 ^ 54))
              [(''layer1'',
                layer_of (default_geometry\<lparr> rotate_deg := Fin (3602879701896397 / 2 ^ 55) \<rparr>))]))
        ''layer1'')
     = Some (Fin (1801439850948199 / 2 ^ 54))"
    unfolding r_def a_def s2_def .
  moreover have "(0 :: real) < 1801439850948199 / 2 ^ 54 - 3602879701896397 / 2 ^ 55"
    and "(1801439850948199 / 2 ^ 54 - 3602879701896397 / 2 ^ 55 :: real) < 360"
    by simp_all
  ultimately show ?thesis
    by (intro conjI)
qed

section \<open>drag\<close>

lemma geometry_drag_layer:
  "geometry (drag_layer win deltaX deltaY l) =
     (geometry l)\<lparr>
        cx := cx (geometry l)
              - (deltaX * Math_cos (rotate_deg (geometry l) * Math_PI / Fin 180)
                 - deltaY * Math_sin (rotate_deg (geometry l) * Math_PI / Fin 180))
                / scale (getFrameGeometry win (geometry l)),
        cy := cy (geometry l)
              - (deltaX * Math_sin (rotate_deg (geometry l) * Math_PI / Fin 180)
                 + deltaY * Math_cos (rotate_deg (geometry l) * Math_PI / Fin 180))
                / scale (getFrameGeometry win (geometry l)),
        clip := False \<rparr>"
  by (simp add: drag_layer_def Let_def)

lemma map_of_drag:
  "map_option geometry (map_of (drag win deltaX deltaY reg) idLayer)
     = map_option (geometry \<circ> drag_layer win deltaX deltaY) (map_of reg idLayer)"
  by (simp add: drag_def map_of_update map_of_for_each_layer option.map_comp
      comp_def geometry_update_layer)

lemma keys_drag: "map fst (drag win deltaX deltaY reg) = map fst reg"
  by (simp add: drag_def keys_update keys_for_each_layer)





section \<open>zoom\<close>

lemma minus_Fin_0: "a - Fin 0 = a"
  by (cases a) (simp_all add: minus_number_def)

lemma divide_Fin_1: "a / Fin 1 = a"
  by (cases a) simp_all

lemma geometry_zoom_layer:
  "geometry (zoom_layer factor l) =
     (geometry l)\<lparr> width := width (geometry l) / factor, height := height (geometry l) / factor \<rparr>"
  by (simp add: zoom_layer_def Let_def)

lemma map_of_zoom:
  "map_option geometry (map_of (zoom win factor x y reg) idLayer)
     = map_option (\<lambda>l. geometry (drag_layer win (zoom_deltaX win factor x) (zoom_deltaY win factor y)
                            (zoom_layer factor l)))
         (map_of reg idLayer)"
  by (simp add: zoom_def Let_def map_of_drag map_of_for_each_layer option.map_comp comp_def)

text \<open>
  C9. For every factor and every pivot \<open>(x, y)\<close>, \<^verbatim>\<open>zoom\<close> keeps the layers of the
  registry and leaves \<open>clip = false\<close> on every one of them: it always applies
  \<^verbatim>\<open>drag\<close>, whatever the displacement it has computed.
\<close>

theorem zoom_unclips:
  assumes "map_of reg idLayer = Some l"
  shows "map fst (zoom win factor x y reg) = map fst reg
       \<and> map_option (clip \<circ> geometry) (map_of (zoom win factor x y reg) idLayer) = Some False"
proof -
  have "map_option (clip \<circ> geometry) (map_of (zoom win factor x y reg) idLayer)
      = map_option clip (map_option geometry (map_of (zoom win factor x y reg) idLayer))"
    by (simp add: option.map_comp)
  also have "\<dots> = Some False"
    using assms by (simp add: map_of_zoom geometry_drag_layer)
  finally show ?thesis
    by (simp add: zoom_def Let_def keys_drag keys_for_each_layer)
qed

text \<open>A layer that is clipped before \<^verbatim>\<open>zoom(3, 100, 50)\<close> is not after it.\<close>

theorem zoom_unclips_witness:
  "map_of [(''layer1'', layer_of default_geometry)] ''layer1'' = Some (layer_of default_geometry)
   \<and> clip (geometry (layer_of default_geometry))
   \<and> map_option (clip \<circ> geometry)
       (map_of (zoom window_800_400 (Fin 3) (Fin 100) (Fin 50)
          [(''layer1'', layer_of default_geometry)]) ''layer1'') = Some False"
proof -
  have registered:
    "map_of [(''layer1'', layer_of default_geometry)] ''layer1'' = Some (layer_of default_geometry)"
    by simp
  have clipped: "clip (geometry (layer_of default_geometry))"
    by (simp add: geometry_layer_of default_geometry_def)
  have unclipped: "map_option (clip \<circ> geometry)
       (map_of (zoom window_800_400 (Fin 3) (Fin 100) (Fin 50)
          [(''layer1'', layer_of default_geometry)]) ''layer1'') = Some False"
    using zoom_unclips [OF registered, of window_800_400 "Fin 3" "Fin 100" "Fin 50"]
    by (rule conjunct2)
  show ?thesis
    by (rule conjI [OF registered conjI [OF clipped unclipped]])
qed

text \<open>
  C5, as amended. For every pivot \<open>(x, y)\<close>, \<^verbatim>\<open>zoom(1, x, y)\<close> leaves the centre, the
  size and the rotation of every layer unchanged, and sets its \<open>clip\<close> flag to false (so the
  flag is unchanged only where it was false already). The layer has a finite rotation and
  a finite positive size, and the window a finite positive size.
\<close>

theorem zoom_one_keeps_center_size_rotation:
  assumes "map_of reg idLayer = Some l"
    and "width (geometry l) = Fin w" "height (geometry l) = Fin h" "rotate_deg (geometry l) = Fin r"
    and "innerWidth win = Fin W" "innerHeight win = Fin H"
    and "0 < w" "0 < h" "0 < W" "0 < H"
  shows "map_option geometry (map_of (zoom win (Fin 1) (Fin x) (Fin y) reg) idLayer)
       = Some ((geometry l)\<lparr> clip := False \<rparr>)"
proof -
  have dx: "zoom_deltaX win (Fin 1) (Fin x) = Fin 0" and dy: "zoom_deltaY win (Fin 1) (Fin y) = Fin 0"
    using assms by (simp_all add: zoom_deltaX_def zoom_deltaY_def)
  have z: "geometry (zoom_layer (Fin 1) l) = geometry l"
    by (simp add: geometry_zoom_layer divide_Fin_1)
  have "0 < min (W / w) (H / h)"
    using assms by simp
  then have nz: "min (W / w) (H / h) \<noteq> 0"
    by (auto simp: min_def)
  have sc: "scale (getFrameGeometry win (geometry l)) = Fin (min (W / w) (H / h))"
    using assms by (simp add: getFrameGeometry_Fin)
  have "geometry (drag_layer win (Fin 0) (Fin 0) (zoom_layer (Fin 1) l)) = (geometry l)\<lparr> clip := False \<rparr>"
    using assms(4) nz by (simp add: geometry_drag_layer z sc Math_PI_def minus_Fin_0)
  then show ?thesis
    using assms(1) by (simp add: map_of_zoom dx dy)
qed

text \<open>
  C5 as stated fails on the \<open>clip\<close> flag: a layer that is clipped is no longer clipped after
  \<^verbatim>\<open>zoom(1, 400, 200)\<close>.
\<close>

theorem zoom_one_counterexample:
  "clip (geometry (layer_of default_geometry))
   \<and> map_option (clip \<circ> geometry)
       (map_of (zoom window_800_400 (Fin 1) (Fin 400) (Fin 200)
          [(''layer1'', layer_of default_geometry)]) ''layer1'') = Some False"
  by (simp add: zoom_def Let_def drag_def update_def for_each_layer_def geometry_update_layer
      geometry_drag_layer geometry_layer_of default_geometry_def)


text \<open>\<^verbatim>\<open>zoom(1, 100, 50)\<close> on the rotated layer changes its \<open>clip\<close> flag only.\<close>

theorem zoom_one_witness:
  "map_of [(''layer1'', layer_of rotated_geometry)] ''layer1'' = Some (layer_of rotated_geometry)
   \<and> map_option geometry
       (map_of (zoom window_800_400 (Fin 1) (Fin 100) (Fin 50)
          [(''layer1'', layer_of rotated_geometry)]) ''layer1'')
     = Some (rotated_geometry\<lparr> clip := False \<rparr>)"
  using zoom_one_keeps_center_size_rotation
    [where reg = "[(''layer1'', layer_of rotated_geometry)]" and idLayer = "''layer1''"
       and l = "layer_of rotated_geometry" and w = 200 and h = 100 and r = 90
       and win = window_800_400 and W = 800 and H = 400 and x = 100 and y = 50]
  by (simp add: geometry_layer_of rotated_geometry_def window_800_400_def)



section \<open>showFrame\<close>

lemma map_of_modify_layer:
  "map_of (modify_layer idLayer f reg) k
     = (if k = idLayer then map_option f (map_of reg k) else map_of reg k)"
  by (induction reg) (auto simp: modify_layer_def)

lemma keys_modify_layer: "map fst (modify_layer idLayer f reg) = map fst reg"
  by (induction reg) (auto simp: modify_layer_def)

lemma showFrame_loop_copies:
  assumes "distinct (map fst fls)" and "fst ` set fls \<subseteq> dom (map_of reg)"
  shows "\<exists>reg'. showFrame_loop fls reg = Inr reg'
           \<and> map fst reg' = map fst reg
           \<and> (\<forall>idLayer l. map_of reg idLayer = Some l \<longrightarrow>
                 map_option geometry (map_of reg' idLayer)
                   = Some (case map_of fls idLayer of
                             None \<Rightarrow> geometry l
                           | Some fl \<Rightarrow> copy_attrs (layer_geometry fl) (geometry l)))"
  using assms
proof (induction fls arbitrary: reg)
  case Nil
  then show ?case by simp
next
  case (Cons entry rest)
  obtain id0 fl0 where entry: "entry = (id0, fl0)"
    by (cases entry)
  define reg1 where
    "reg1 = modify_layer id0 (\<lambda>l. l\<lparr> geometry := copy_attrs (layer_geometry fl0) (geometry l) \<rparr>) reg"
  from Cons.prems entry obtain l0 where l0: "map_of reg id0 = Some l0"
    by auto
  have dom1: "dom (map_of reg1) = dom (map_of reg)"
    by (auto simp: reg1_def map_of_modify_layer dom_def)
  have "distinct (map fst rest)" and "fst ` set rest \<subseteq> dom (map_of reg1)"
    using Cons.prems by (auto simp: dom1)
  from Cons.IH [OF this] obtain reg' where
    loop: "showFrame_loop rest reg1 = Inr reg'"
    and keys: "map fst reg' = map fst reg1"
    and geo: "\<And>idLayer l. map_of reg1 idLayer = Some l \<Longrightarrow>
                 map_option geometry (map_of reg' idLayer)
                   = Some (case map_of rest idLayer of
                             None \<Rightarrow> geometry l
                           | Some fl \<Rightarrow> copy_attrs (layer_geometry fl) (geometry l))"
    by blast
  have fresh: "map_of rest id0 = None"
    using Cons.prems(1) entry by (simp add: map_of_eq_None_iff)
  have "showFrame_loop (entry # rest) reg = Inr reg'"
    using l0 loop by (simp add: entry reg1_def)
  moreover have "map fst reg' = map fst reg"
    using keys by (simp add: reg1_def keys_modify_layer)
  moreover have "map_option geometry (map_of reg' idLayer)
                   = Some (case map_of (entry # rest) idLayer of
                             None \<Rightarrow> geometry l
                           | Some fl \<Rightarrow> copy_attrs (layer_geometry fl) (geometry l))"
    if "map_of reg idLayer = Some l" for idLayer l
  proof (cases "idLayer = id0")
    case True
    with that have "map_of reg1 idLayer
        = Some (l\<lparr> geometry := copy_attrs (layer_geometry fl0) (geometry l) \<rparr>)"
      by (simp add: reg1_def map_of_modify_layer)
    from geo [OF this] show ?thesis
      using True fresh by (simp add: entry)
  next
    case False
    with that have "map_of reg1 idLayer = Some l"
      by (simp add: reg1_def map_of_modify_layer)
    from geo [OF this] show ?thesis
      using False by (simp add: entry)
  qed
  ultimately show ?case by blast
qed

text \<open>
  C6. Let \<open>f\<close> be a frame whose layers are all layers of the display (the keys of an object
  are distinct). Then \<^verbatim>\<open>showFrame(f)\<close> returns, the registry has the same layers as
  before, and for every layer of the display: if \<open>f\<close> has no entry for it, its geometry
  is unchanged; otherwise every attribute that the geometry of its entry has is copied into
  the geometry of the layer, and every attribute that the entry does not have keeps its
  value.
\<close>

theorem showFrame_copies_attributes:
  assumes "distinct (map fst (frame_layers f))"
    and "fst ` set (frame_layers f) \<subseteq> fst ` set reg"
  shows "\<exists>reg'. showFrame win f reg = Inr reg'
           \<and> map fst reg' = map fst reg
           \<and> (\<forall>idLayer l. map_of reg idLayer = Some l \<longrightarrow>
                 map_option geometry (map_of reg' idLayer)
                   = Some (case map_of (frame_layers f) idLayer of
                             None \<Rightarrow> geometry l
                           | Some fl \<Rightarrow>
                               \<lparr> cx = (case cx_attr (layer_geometry fl) of
                                         Some v \<Rightarrow> v | None \<Rightarrow> cx (geometry l)),
                                 cy = (case cy_attr (layer_geometry fl) of
                                         Some v \<Rightarrow> v | None \<Rightarrow> cy (geometry l)),
                                 width = (case width_attr (layer_geometry fl) of
                                         Some v \<Rightarrow> v | None \<Rightarrow> width (geometry l)),
                                 height = (case height_attr (layer_geometry fl) of
                                         Some v \<Rightarrow> v | None \<Rightarrow> height (geometry l)),
                                 rotate_deg = (case rotate_attr (layer_geometry fl) of
                                         Some v \<Rightarrow> v | None \<Rightarrow> rotate_deg (geometry l)),
                                 clip = (case clip_attr (layer_geometry fl) of
                                         Some v \<Rightarrow> v | None \<Rightarrow> clip (geometry l)) \<rparr>))"
proof -
  have "fst ` set (frame_layers f) \<subseteq> dom (map_of reg)"
    using assms(2) by (simp add: dom_map_of_conv_image_fst)
  from showFrame_loop_copies [OF assms(1) this] obtain reg1 where
    loop: "showFrame_loop (frame_layers f) reg = Inr reg1"
    and keys: "map fst reg1 = map fst reg"
    and geo: "\<And>idLayer l. map_of reg idLayer = Some l \<Longrightarrow>
                 map_option geometry (map_of reg1 idLayer)
                   = Some (case map_of (frame_layers f) idLayer of
                             None \<Rightarrow> geometry l
                           | Some fl \<Rightarrow> copy_attrs (layer_geometry fl) (geometry l))"
    by blast
  have copy: "copy_attrs fg lg =
      \<lparr> cx = (case cx_attr fg of Some v \<Rightarrow> v | None \<Rightarrow> cx lg),
        cy = (case cy_attr fg of Some v \<Rightarrow> v | None \<Rightarrow> cy lg),
        width = (case width_attr fg of Some v \<Rightarrow> v | None \<Rightarrow> width lg),
        height = (case height_attr fg of Some v \<Rightarrow> v | None \<Rightarrow> height lg),
        rotate_deg = (case rotate_attr fg of Some v \<Rightarrow> v | None \<Rightarrow> rotate_deg lg),
        clip = (case clip_attr fg of Some v \<Rightarrow> v | None \<Rightarrow> clip lg) \<rparr>" for fg lg
    by (simp add: copy_attrs_def)
  have upd: "map_option geometry (map_of (update win reg1) idLayer)
      = map_option geometry (map_of reg1 idLayer)" for idLayer
    by (simp add: map_of_update option.map_comp comp_def geometry_update_layer)
  have "showFrame win f reg = Inr (update win reg1)"
    by (simp add: showFrame_def loop)
  moreover have "map fst (update win reg1) = map fst reg"
    by (simp add: keys_update keys)
  moreover have "map_option geometry (map_of (update win reg1) idLayer)
       = Some (case map_of (frame_layers f) idLayer of
                 None \<Rightarrow> geometry l
               | Some fl \<Rightarrow>
                   \<lparr> cx = (case cx_attr (layer_geometry fl) of
                             Some v \<Rightarrow> v | None \<Rightarrow> cx (geometry l)),
                     cy = (case cy_attr (layer_geometry fl) of
                             Some v \<Rightarrow> v | None \<Rightarrow> cy (geometry l)),
                     width = (case width_attr (layer_geometry fl) of
                             Some v \<Rightarrow> v | None \<Rightarrow> width (geometry l)),
                     height = (case height_attr (layer_geometry fl) of
                             Some v \<Rightarrow> v | None \<Rightarrow> height (geometry l)),
                     rotate_deg = (case rotate_attr (layer_geometry fl) of
                             Some v \<Rightarrow> v | None \<Rightarrow> rotate_deg (geometry l)),
                     clip = (case clip_attr (layer_geometry fl) of
                             Some v \<Rightarrow> v | None \<Rightarrow> clip (geometry l)) \<rparr>)"
    if "map_of reg idLayer = Some l" for idLayer l
    using geo [OF that] by (simp only: upd copy)
  ultimately show ?thesis by blast
qed


text \<open>
  A frame that gives \<open>cx\<close>, \<open>width\<close> and \<open>clip\<close> for the second of two layers: these
  three attributes of that layer change, its other attributes and the first layer do not.
\<close>

theorem showFrame_copies_attributes_witness:
  "distinct (map fst (frame_layers partial_frame))
   \<and> fst ` set (frame_layers partial_frame)
       \<subseteq> fst ` set [(''layer1'', layer_of default_geometry), (''layer2'', layer_of rotated_geometry)]
   \<and> (\<exists>reg'. showFrame window_800_400 partial_frame
                 [(''layer1'', layer_of default_geometry), (''layer2'', layer_of rotated_geometry)]
               = Inr reg'
             \<and> map_option geometry (map_of reg' ''layer2'')
                 = Some (rotated_geometry\<lparr> cx := Fin 7, width := Fin 300, clip := False \<rparr>)
             \<and> map_option geometry (map_of reg' ''layer1'') = Some default_geometry)"
proof -
  have d: "distinct (map fst (frame_layers partial_frame))"
    by (simp add: partial_frame_def)
  have r: "fst ` set (frame_layers partial_frame)
       \<subseteq> fst ` set [(''layer1'', layer_of default_geometry), (''layer2'', layer_of rotated_geometry)]"
    by (simp add: partial_frame_def)
  from showFrame_copies_attributes [OF d r, of window_800_400] obtain reg' where
    ret: "showFrame window_800_400 partial_frame
                 [(''layer1'', layer_of default_geometry), (''layer2'', layer_of rotated_geometry)]
               = Inr reg'"
    and geo: "\<And>idLayer l.
       map_of [(''layer1'', layer_of default_geometry), (''layer2'', layer_of rotated_geometry)] idLayer
         = Some l \<Longrightarrow>
       map_option geometry (map_of reg' idLayer)
         = Some (case map_of (frame_layers partial_frame) idLayer of
                   None \<Rightarrow> geometry l
                 | Some fl \<Rightarrow>
                     \<lparr> cx = (case cx_attr (layer_geometry fl) of
                               Some v \<Rightarrow> v | None \<Rightarrow> cx (geometry l)),
                       cy = (case cy_attr (layer_geometry fl) of
                               Some v \<Rightarrow> v | None \<Rightarrow> cy (geometry l)),
                       width = (case width_attr (layer_geometry fl) of
                               Some v \<Rightarrow> v | None \<Rightarrow> width (geometry l)),
                       height = (case height_attr (layer_geometry fl) of
                               Some v \<Rightarrow> v | None \<Rightarrow> height (geometry l)),
                       rotate_deg = (case rotate_attr (layer_geometry fl) of
                               Some v \<Rightarrow> v | None \<Rightarrow> rotate_deg (geometry l)),
                       clip = (case clip_attr (layer_geometry fl) of
                               Some v \<Rightarrow> v | None \<Rightarrow> clip (geometry l)) \<rparr>)"
    by blast
  have g2: "map_option geometry (map_of reg' ''layer2'')
      = Some (rotated_geometry\<lparr> cx := Fin 7, width := Fin 300, clip := False \<rparr>)"
    using geo [of "''layer2''" "layer_of rotated_geometry"]
    by (simp add: partial_frame_def geometry_layer_of rotated_geometry_def)
  have g1: "map_option geometry (map_of reg' ''layer1'') = Some default_geometry"
    using geo [of "''layer1''" "layer_of default_geometry"]
    by (simp add: partial_frame_def geometry_layer_of)
  from d r ret g2 g1 show ?thesis
    by blast
qed

text \<open>
  A frame that names a layer that the display does not have makes \<^verbatim>\<open>showFrame\<close> throw
  at that entry.
\<close>

lemma showFrame_unregistered_layer:
  "showFrame win \<lparr> frame_layers = [(''layer9'', fl)] \<rparr> [(''layer1'', l)]
     = Inl (TypeError, [(''layer1'', l)])"
  by (simp add: showFrame_def)

section \<open>update, and the operations after it\<close>

lemma update_layer_reads_geometry:
  "geometry l = geometry l' \<Longrightarrow> update_layer win l = update_layer win l'"
  by (cases l, cases l') (simp add: update_layer_def Let_def)

lemma update_for_each_layer_cong:
  assumes "\<And>l l'. geometry l = geometry l' \<Longrightarrow> geometry (f l) = geometry (f l')"
    and "geometries reg = geometries reg'"
  shows "update win (for_each_layer f reg) = update win (for_each_layer f reg')"
  using assms(2)
proof (induction reg arbitrary: reg')
  case Nil
  then show ?case by (simp add: geometries_def)
next
  case (Cons e reg)
  then obtain e' rest where reg': "reg' = e' # rest"
    by (cases reg') (auto simp: geometries_def)
  with Cons.prems have k: "fst e = fst e'" and g: "geometry (snd e) = geometry (snd e')"
    and r: "geometries reg = geometries rest"
    by (auto simp: geometries_def case_prod_unfold)
  have "update_layer win (f (snd e)) = update_layer win (f (snd e'))"
    by (rule update_layer_reads_geometry) (rule assms(1) [OF g])
  with Cons.IH [OF r] k show ?case
    by (simp add: reg' update_def for_each_layer_def case_prod_unfold)
qed

lemma for_each_layer_comp:
  "for_each_layer f (for_each_layer g reg) = for_each_layer (\<lambda>l. f (g l)) reg"
  by (simp add: for_each_layer_def case_prod_unfold comp_def)

lemma operations_read_geometries:
  assumes "geometries reg = geometries reg'"
  shows "update win reg = update win reg'"
    and "drag win deltaX deltaY reg = drag win deltaX deltaY reg'"
    and "zoom win factor x y reg = zoom win factor x y reg'"
    and "rotate_display win angle reg = rotate_display win angle reg'"
proof -
  show "update win reg = update win reg'"
    using update_for_each_layer_cong [of "\<lambda>l. l", OF _ assms]
    by (simp add: for_each_layer_def)
  show "drag win deltaX deltaY reg = drag win deltaX deltaY reg'"
    unfolding drag_def
    by (rule update_for_each_layer_cong [OF _ assms]) (simp add: geometry_drag_layer)
  show "zoom win factor x y reg = zoom win factor x y reg'"
    unfolding zoom_def Let_def drag_def for_each_layer_comp
    by (rule update_for_each_layer_cong [OF _ assms])
      (simp add: geometry_drag_layer geometry_zoom_layer)
  show "rotate_display win angle reg = rotate_display win angle reg'"
    unfolding rotate_display_def
    by (rule update_for_each_layer_cong [OF _ assms]) (simp add: rotate_layer_def Let_def)
qed

lemma keys_geometries: "map fst (geometries reg) = map fst reg"
  by (simp add: geometries_def case_prod_unfold)

lemma geometries_modify_layer:
  "geometries (modify_layer idLayer (\<lambda>l. l\<lparr> geometry := c (geometry l) \<rparr>) reg)
     = map (\<lambda>(k, g). if k = idLayer then (k, c g) else (k, g)) (geometries reg)"
  by (induction reg) (auto simp: geometries_def modify_layer_def)

lemma showFrame_loop_reads_geometries:
  assumes "geometries reg = geometries reg'"
  shows "map_sum (map_prod id geometries) geometries (showFrame_loop fls reg)
       = map_sum (map_prod id geometries) geometries (showFrame_loop fls reg')"
  using assms
proof (induction fls arbitrary: reg reg')
  case Nil
  then show ?case by simp
next
  case (Cons entry rest)
  obtain id0 fl0 where entry: "entry = (id0, fl0)"
    by (cases entry)
  have "map fst reg = map fst reg'"
    using Cons.prems keys_geometries by metis
  then have "fst ` set reg = fst ` set reg'"
    by (metis list.set_map)
  then have none: "map_of reg id0 = None \<longleftrightarrow> map_of reg' id0 = None"
    by (simp add: map_of_eq_None_iff)
  have "geometries (modify_layer id0 (\<lambda>l. l\<lparr> geometry := copy_attrs (layer_geometry fl0) (geometry l) \<rparr>) reg)
      = geometries (modify_layer id0 (\<lambda>l. l\<lparr> geometry := copy_attrs (layer_geometry fl0) (geometry l) \<rparr>) reg')"
    by (simp only: geometries_modify_layer Cons.prems)
  note step = Cons.IH [OF this]
  show ?case
  proof (cases "map_of reg id0")
    case None
    moreover from None none have "map_of reg' id0 = None"
      by simp
    ultimately show ?thesis
      by (simp add: entry Cons.prems)
  next
    case (Some l)
    moreover from Some none obtain l' where "map_of reg' id0 = Some l'"
      by (cases "map_of reg' id0") simp_all
    ultimately show ?thesis
      using step by (simp add: entry)
  qed
qed

lemma showFrame_reads_geometries:
  assumes "geometries reg = geometries reg'"
  shows "map_sum (map_prod id geometries) id (showFrame win f reg)
       = map_sum (map_prod id geometries) id (showFrame win f reg')"
proof -
  note loop = showFrame_loop_reads_geometries [OF assms, of "frame_layers f"]
  show ?thesis
  proof (cases "showFrame_loop (frame_layers f) reg")
    case (Inl a)
    with loop show ?thesis
      by (cases "showFrame_loop (frame_layers f) reg'") (simp_all add: showFrame_def)
  next
    case (Inr r)
    with loop obtain r' where r': "showFrame_loop (frame_layers f) reg' = Inr r'"
      and "geometries r = geometries r'"
      by (cases "showFrame_loop (frame_layers f) reg'") simp_all
    then have "update win r = update win r'"
      by (intro operations_read_geometries(1))
    then show ?thesis
      by (simp add: showFrame_def Inr r')
  qed
qed

text \<open>
  C10. \<^verbatim>\<open>update\<close> leaves the geometry of every layer (\<open>cx\<close>, \<open>cy\<close>, \<open>width\<close>,
  \<open>height\<close>, \<open>rotate\<close>, \<open>clip\<close>) and the keys of the registry as they are, for every
  registry: it writes the attributes of the clipping rectangle and the transform of the
  layer group only. So after any number of calls, with whatever sizes of the window, the
  geometries are those of before, and \<^verbatim>\<open>update\<close>, \<^verbatim>\<open>drag\<close>, \<^verbatim>\<open>zoom\<close>,
  \<^verbatim>\<open>rotate\<close> and \<^verbatim>\<open>showFrame\<close> do what they would have done without these calls
  (where \<^verbatim>\<open>showFrame\<close> throws, it throws in both cases with the same geometries).
\<close>

theorem update_keeps_geometries:
  "geometries (fold update wins reg) = geometries reg
   \<and> update win (fold update wins reg) = update win reg
   \<and> drag win deltaX deltaY (fold update wins reg) = drag win deltaX deltaY reg
   \<and> zoom win factor x y (fold update wins reg) = zoom win factor x y reg
   \<and> rotate_display win angle (fold update wins reg) = rotate_display win angle reg
   \<and> map_sum (map_prod id geometries) id (showFrame win f (fold update wins reg))
     = map_sum (map_prod id geometries) id (showFrame win f reg)"
proof -
  have g: "geometries (fold update wins reg) = geometries reg"
    by (induction wins arbitrary: reg) (simp_all add: geometries_update)
  show ?thesis
    using g operations_read_geometries [OF g] showFrame_reads_geometries [OF g] by simp
qed

end
